theory Spec2Isabelle
  imports Main
begin

section \<open>The RINEX batch downloader of \<^verbatim>\<open>download_rinex.py\<close>\<close>

text \<open>
  The development embeds the downloader of \<^verbatim>\<open>src/download_rinex.py\<close>: the candidate
  generator, the fetch executor with its retry loop, the unit resolver, and the batch
  orchestrator with its availability windows. Effects are explicit: a \<open>world\<close> holds the
  filesystem and a chronological trace of the observable actions (HTTP requests, sleeps,
  directory creations, file writes and the log lines the specification speaks about), and an
  \<open>env\<close> holds what the surroundings decide (the server's replies and disk faults).
\<close>

subsection \<open>Calendar dates\<close>

text \<open>
  A \<^verbatim>\<open>datetime.date\<close> is represented by its proleptic Gregorian ordinal
  (\<^verbatim>\<open>date.toordinal()\<close>, day 1 is 0001-01-01). Comparison of dates is comparison of
  ordinals, \<^verbatim>\<open>(b - a).days\<close> is the difference of ordinals and
  \<^verbatim>\<open>a + timedelta(n)\<close> adds \<open>n\<close> to the ordinal; this is how CPython computes them.
  The functions below follow \<^verbatim>\<open>Lib/_pydatetime.py\<close>: \<open>ymd2ord\<close> builds the ordinal of
  a year, month and day, \<open>ord2ymd\<close> reads them back, and \<open>tm_yday\<close> is the day of the year
  of \<^verbatim>\<open>timetuple()\<close>.
\<close>

type_synonym date = int

definition is_leap :: "int \<Rightarrow> bool" where
  "is_leap year = (year mod 4 = 0 \<and> (year mod 100 \<noteq> 0 \<or> year mod 400 = 0))"

definition DAYS_IN_MONTH :: "int list" where
  "DAYS_IN_MONTH = [-1, 31, 28, 31, 30, 31, 30, 31, 31, 30, 31, 30, 31]"

definition DAYS_BEFORE_MONTH :: "int list" where
  "DAYS_BEFORE_MONTH = [-1, 0, 31, 59, 90, 120, 151, 181, 212, 243, 273, 304, 334]"

definition days_before_year :: "int \<Rightarrow> int" where
  "days_before_year year =
     (let y = year - 1 in y * 365 + y div 4 - y div 100 + y div 400)"

definition days_before_month :: "int \<Rightarrow> nat \<Rightarrow> int" where
  "days_before_month year month =
     DAYS_BEFORE_MONTH ! month + (if month > 2 \<and> is_leap year then 1 else 0)"

definition ymd2ord :: "int \<Rightarrow> nat \<Rightarrow> int \<Rightarrow> date" where
  "ymd2ord year month day = days_before_year year + days_before_month year month + day"

text \<open>
  \<open>month_day leapyear n\<close> is the tail of \<^verbatim>\<open>_ord2ymd\<close>: from the zero-based offset \<open>n\<close>
  of a day in its year to the month and the day of the month.
\<close>

definition month_day :: "bool \<Rightarrow> int \<Rightarrow> nat \<times> int" where
  "month_day leapyear n =
     (let month = nat ((n + 50) div 32);
          preceding = DAYS_BEFORE_MONTH ! month + (if month > 2 \<and> leapyear then 1 else 0)
      in if preceding > n
         then (let month' = month - 1;
                   preceding' = preceding
                     - (DAYS_IN_MONTH ! month' + (if month' = 2 \<and> leapyear then 1 else 0))
               in (month', n - preceding' + 1))
         else (month, n - preceding + 1))"

definition ord2ymd :: "date \<Rightarrow> int \<times> nat \<times> int" where
  "ord2ymd ordinal =
     (let n = ordinal - 1;
          n400 = n div 146097; n = n mod 146097;
          year = n400 * 400 + 1;
          n100 = n div 36524; n = n mod 36524;
          n4 = n div 1461; n = n mod 1461;
          n1 = n div 365; n = n mod 365;
          year = year + n100 * 100 + n4 * 4 + n1
      in if n1 = 4 \<or> n100 = 4 then (year - 1, 12, 31)
         else (let leapyear = (n1 = 3 \<and> (n4 \<noteq> 24 \<or> n100 = 3));
                   (month, day) = month_day leapyear n
               in (year, month, day)))"

definition year_of :: "date \<Rightarrow> int" where
  "year_of d = fst (ord2ymd d)"

definition tm_yday :: "date \<Rightarrow> int" where
  "tm_yday d = (case ord2ymd d of (y, m, dd) \<Rightarrow> days_before_month y m + dd)"


subsection \<open>Availability windows and the expansion into work units\<close>

text \<open>
  \<^verbatim>\<open>daterange\<close> yields \<^verbatim>\<open>start_date + timedelta(n)\<close> for \<open>n\<close> in
  \<^verbatim>\<open>range((end_date - start_date).days + 1)\<close>; a range of a non-positive length is empty.
\<close>

definition daterange :: "date \<Rightarrow> date \<Rightarrow> date list" where
  "daterange start_date end_date =
     map (\<lambda>n. start_date + int n) [0 ..< nat ((end_date - start_date) + 1)]"

text \<open>
  The window of a station is a pair of optional dates; \<^verbatim>\<open>station_periods.get(st, (None, None))\<close>
  reads it. A date is always truthy in Python, so \<^verbatim>\<open>if st_start and st_start > eff_start\<close>
  tests that the bound is present and later.
\<close>

type_synonym period = "date option \<times> date option"

definition get_period :: "(string \<rightharpoonup> period) \<Rightarrow> string \<Rightarrow> period" where
  "get_period station_periods st =
     (case station_periods st of None \<Rightarrow> (None, None) | Some p \<Rightarrow> p)"

definition eff_start :: "date \<Rightarrow> date option \<Rightarrow> date" where
  "eff_start start_date st_start =
     (case st_start of
        None \<Rightarrow> start_date
      | Some s \<Rightarrow> if s > start_date then s else start_date)"

definition eff_end :: "date \<Rightarrow> date option \<Rightarrow> date" where
  "eff_end end_date st_stop =
     (case st_stop of
        None \<Rightarrow> end_date
      | Some s \<Rightarrow> if s < end_date then s else end_date)"

text \<open>
  One round of the expansion loop of \<^verbatim>\<open>download_rinex_batch\<close>: the work units of one
  station, and the stations reported as skipped ("no overlap with date range").
\<close>

definition station_tasks ::
  "(string \<rightharpoonup> period) \<Rightarrow> date \<Rightarrow> date \<Rightarrow> string \<Rightarrow> (string \<times> date) list \<times> string list" where
  "station_tasks station_periods start_date end_date st =
     (case get_period station_periods st of (st_start, st_stop) \<Rightarrow>
        (let es = eff_start start_date st_start;
             ee = eff_end end_date st_stop
         in if ee < es then ([], [st])
            else (map (\<lambda>single_date. (st, single_date)) (daterange es ee), [])))"

fun build_tasks ::
  "(string \<rightharpoonup> period) \<Rightarrow> date \<Rightarrow> date \<Rightarrow> string list \<Rightarrow> (string \<times> date) list \<times> string list" where
  "build_tasks station_periods start_date end_date [] = ([], [])"
| "build_tasks station_periods start_date end_date (st # stations) =
     (case station_tasks station_periods start_date end_date st of (ts, sk) \<Rightarrow>
        (case build_tasks station_periods start_date end_date stations of (ts', sk') \<Rightarrow>
           (ts @ ts', sk @ sk')))"

subsection \<open>Strings, number formatting and paths\<close>

text \<open>
  Station identifiers are ASCII: \<^verbatim>\<open>str.lower\<close> and \<^verbatim>\<open>str.upper\<close> map the 26 letters
  and leave every other character as it is.
\<close>

definition lower_char :: "char \<Rightarrow> char" where
  "lower_char c =
     (case map_of (zip ''ABCDEFGHIJKLMNOPQRSTUVWXYZ'' ''abcdefghijklmnopqrstuvwxyz'') c of
        None \<Rightarrow> c | Some l \<Rightarrow> l)"

definition upper_char :: "char \<Rightarrow> char" where
  "upper_char c =
     (case map_of (zip ''abcdefghijklmnopqrstuvwxyz'' ''ABCDEFGHIJKLMNOPQRSTUVWXYZ'') c of
        None \<Rightarrow> c | Some u \<Rightarrow> u)"

definition str_lower :: "string \<Rightarrow> string" where
  "str_lower s = map lower_char s"

definition str_upper :: "string \<Rightarrow> string" where
  "str_upper s = map upper_char s"

definition digit_char :: "nat \<Rightarrow> char" where
  "digit_char n = ''0123456789'' ! n"

fun digits :: "nat \<Rightarrow> string" where
  "digits n = (if n < 10 then [digit_char n] else digits (n div 10) @ [digit_char (n mod 10)])"

text \<open>\<^verbatim>\<open>f"{i}"\<close> for an integer \<open>i\<close>.\<close>

definition str_int :: "int \<Rightarrow> string" where
  "str_int i = (if i < 0 then ''-'' @ digits (nat (- i)) else digits (nat i))"

text \<open>
  \<^verbatim>\<open>f"{i:0wd}"\<close>: the decimal digits, filled with zeros after the sign up to the width \<open>w\<close>.
\<close>

definition fmt_0d :: "nat \<Rightarrow> int \<Rightarrow> string" where
  "fmt_0d w i =
     (if i < 0
      then ''-'' @ replicate (w - 1 - length (digits (nat (- i)))) (CHR ''0'') @ digits (nat (- i))
      else replicate (w - length (digits (nat i))) (CHR ''0'') @ digits (nat i))"

text \<open>\<^verbatim>\<open>os.path.join\<close> and \<^verbatim>\<open>os.path.dirname\<close> of \<^verbatim>\<open>posixpath\<close>.\<close>

definition path_join :: "string \<Rightarrow> string \<Rightarrow> string" where
  "path_join a b =
     (if b \<noteq> [] \<and> hd b = CHR ''/'' then b
      else if a = [] \<or> last a = CHR ''/'' then a @ b
      else a @ ''/'' @ b)"

definition rstrip_slash :: "string \<Rightarrow> string" where
  "rstrip_slash s = rev (dropWhile (\<lambda>c. c = CHR ''/'') (rev s))"

definition dirname :: "string \<Rightarrow> string" where
  "dirname p =
     (let head = rev (dropWhile (\<lambda>c. c \<noteq> CHR ''/'') (rev p))
      in if head \<noteq> [] \<and> head \<noteq> replicate (length head) (CHR ''/'')
         then rstrip_slash head else head)"

subsection \<open>The candidate generator\<close>

text \<open>
  The loop of \<^verbatim>\<open>generate_candidate_filenames\<close> that removes duplicates: \<open>seen\<close> is the set
  of the patterns met so far, \<open>unique\<close> the list built so far.
\<close>

fun unique_loop :: "string list \<Rightarrow> string set \<Rightarrow> string list \<Rightarrow> string list" where
  "unique_loop [] seen unique = unique"
| "unique_loop (p # patterns) seen unique =
     (if p \<notin> seen then unique_loop patterns (insert p seen) (unique @ [p])
      else unique_loop patterns seen unique)"

definition generate_candidate_filenames :: "string \<Rightarrow> date \<Rightarrow> string list" where
  "generate_candidate_filenames station current_date =
     (let st_low = str_lower station;
          st_up = str_upper station;
          year = year_of current_date;
          doy = tm_yday current_date;
          yy = year mod 100;
          patterns = [st_low @ fmt_0d 3 doy @ ''00.'' @ fmt_0d 2 yy @ ''d.Z'',
                      st_up @ fmt_0d 3 doy @ ''00.'' @ fmt_0d 2 yy @ ''d.Z'']
      in unique_loop patterns {} [])"

definition ARCHIVE_URL :: string where
  "ARCHIVE_URL = ''https://gage-data.earthscope.org/archive/gnss/rinex/obs/''"

definition generate_rinex_url_and_path :: "string \<Rightarrow> date \<Rightarrow> string \<Rightarrow> (string \<times> string) list" where
  "generate_rinex_url_and_path station current_date rinex_root =
     (let year = year_of current_date;
          doy = tm_yday current_date;
          base_dir = path_join (path_join rinex_root (str_int year)) (fmt_0d 3 doy)
      in map (\<lambda>fname.
                (ARCHIVE_URL @ str_int year @ ''/'' @ fmt_0d 3 doy @ ''/'' @ fname,
                 path_join base_dir fname))
             (generate_candidate_filenames station current_date))"

subsection \<open>The world: filesystem, network and trace\<close>

text \<open>
  The observable actions, in the order they happen: an HTTP GET of a URL, a sleep of some
  seconds, the creation of a directory, the writing of a number of bytes to a file, the
  dry-run line "Would try", the line "Skipping station" of the orchestrator and its final
  summary line with the two counts.
\<close>

datatype event =
    Http_Get string
  | Sleep nat
  | Makedirs string
  | Write_File string nat
  | Would_Try string
  | Skipping_Station string
  | Download_Complete int int

text \<open>
  The filesystem maps the path of a regular file to its size and has a set of directories.
  \<open>clock\<close> counts the HTTP requests issued so far; the surroundings answer by it.
\<close>

record world =
  files :: "string \<rightharpoonup> nat"
  dirs :: "string set"
  clock :: nat
  trace :: "event list"

text \<open>
  What \<^verbatim>\<open>requests.get\<close> does: it raises (timeout, connection reset, DNS failure), or it
  returns a response with a status code and a body, given as the lengths of the chunks that
  \<^verbatim>\<open>iter_content\<close> yields.
\<close>

datatype http_reply = Transport_Error | Response nat "nat list"

text \<open>
  The surroundings: the reply to the request with a given index, URL and token; whether
  \<^verbatim>\<open>os.makedirs\<close> raises there; whether \<^verbatim>\<open>open(local_path, "wb")\<close> raises there; and
  whether the chunk loop raises, after how many chunks written.
\<close>

record env =
  http_get :: "nat \<Rightarrow> string \<Rightarrow> string \<Rightarrow> http_reply"
  makedirs_fails :: "nat \<Rightarrow> string \<Rightarrow> bool"
  open_fails :: "nat \<Rightarrow> string \<Rightarrow> bool"
  chunk_fails :: "nat \<Rightarrow> string \<Rightarrow> nat option"

datatype exn = RuntimeError | IndexError | OSError | HTTPError | RequestException

definition MAX_RETRIES :: nat where
  "MAX_RETRIES = 3"

definition RETRY_BACKOFF_SEC :: nat where
  "RETRY_BACKOFF_SEC = 5"

definition log_event :: "event \<Rightarrow> world \<Rightarrow> world" where
  "log_event e w = w\<lparr>trace := trace w @ [e]\<rparr>"

definition path_exists :: "world \<Rightarrow> string \<Rightarrow> bool" where
  "path_exists w p = (p \<in> dirs w \<or> files w p \<noteq> None)"

definition isfile :: "world \<Rightarrow> string \<Rightarrow> bool" where
  "isfile w p = (files w p \<noteq> None)"

definition getsize :: "world \<Rightarrow> string \<Rightarrow> nat" where
  "getsize w p = (case files w p of None \<Rightarrow> 0 | Some n \<Rightarrow> n)"

subsection \<open>The fetch executor\<close>

definition ensure_directory :: "env \<Rightarrow> string \<Rightarrow> world \<Rightarrow> exn + world" where
  "ensure_directory env path w =
     (let dirpath = dirname path
      in if \<not> path_exists w dirpath
         then (if makedirs_fails env (clock w) dirpath then Inl OSError
               else Inr (log_event (Makedirs dirpath) (w\<lparr>dirs := insert dirpath (dirs w)\<rparr>)))
         else Inr w)"

text \<open>
  \<^verbatim>\<open>with open(local_path, "wb") as f\<close> and the chunk loop: opening truncates the file, the
  non-empty chunks are written in order, and an exception in the loop leaves what was
  written so far.
\<close>

definition write_body :: "env \<Rightarrow> string \<Rightarrow> nat list \<Rightarrow> world \<Rightarrow> exn option \<times> world" where
  "write_body env local_path chunks w =
     (if open_fails env (clock w) local_path then (Some OSError, w)
      else (let written = (case chunk_fails env (clock w) local_path of
                             None \<Rightarrow> chunks
                           | Some k \<Rightarrow> take k chunks);
                n = sum_list (filter (\<lambda>chunk. chunk \<noteq> 0) written);
                w' = log_event (Write_File local_path n) (w\<lparr>files := (files w)(local_path \<mapsto> n)\<rparr>)
            in if length written < length chunks then (Some OSError, w') else (None, w')))"

text \<open>
  The body of the \<^verbatim>\<open>try\<close> of \<^verbatim>\<open>download_file\<close>: one request and the handling of its
  response. \<open>Inr b\<close> is \<^verbatim>\<open>return b\<close>, \<open>Inl e\<close> is an exception that reaches the handler.
\<close>

definition try_fetch :: "env \<Rightarrow> string \<Rightarrow> string \<Rightarrow> string \<Rightarrow> world \<Rightarrow> (exn + bool) \<times> world" where
  "try_fetch env url local_path token w =
     (let w1 = log_event (Http_Get url) (w\<lparr>clock := Suc (clock w)\<rparr>)
      in case http_get env (clock w) url token of
           Transport_Error \<Rightarrow> (Inl RequestException, w1)
         | Response status_code chunks \<Rightarrow>
             if status_code = 200 then
               (case ensure_directory env local_path w1 of
                  Inl e \<Rightarrow> (Inl e, w1)
                | Inr w2 \<Rightarrow>
                    (case write_body env local_path chunks w2 of
                       (Some e, w3) \<Rightarrow> (Inl e, w3)
                     | (None, w3) \<Rightarrow> (Inr True, w3)))
             else if status_code = 404 then (Inr False, w1)
             else if 500 \<le> status_code \<and> status_code < 600 then (Inl HTTPError, w1)
             else (Inr False, w1))"

text \<open>
  The loop \<^verbatim>\<open>for attempt in range(1, max_retries + 1)\<close>. A loop that ends without a
  \<^verbatim>\<open>return\<close> makes the function return \<^verbatim>\<open>None\<close>: the result is \<open>None\<close> then, and
  \<open>Some b\<close> for \<^verbatim>\<open>return b\<close>.
\<close>

function download_attempts ::
  "env \<Rightarrow> string \<Rightarrow> string \<Rightarrow> string \<Rightarrow> nat \<Rightarrow> nat \<Rightarrow> world \<Rightarrow> bool option \<times> world" where
  "download_attempts env url local_path token max_retries attempt w =
     (if attempt > max_retries then (None, w)
      else (case try_fetch env url local_path token w of
              (Inr b, w') \<Rightarrow> (Some b, w')
            | (Inl e, w') \<Rightarrow>
                if attempt < max_retries
                then download_attempts env url local_path token max_retries (Suc attempt)
                       (log_event (Sleep RETRY_BACKOFF_SEC) w')
                else (Some False, w')))"
  by pat_completeness auto
termination
  by (relation "measure (\<lambda>(env, url, local_path, token, max_retries, attempt, w).
        Suc max_retries - attempt)") auto

definition download_file ::
  "env \<Rightarrow> string \<Rightarrow> string \<Rightarrow> string \<Rightarrow> nat \<Rightarrow> world \<Rightarrow> bool option \<times> world" where
  "download_file env url local_path token max_retries w =
     download_attempts env url local_path token max_retries 1 w"

subsection \<open>The unit resolver\<close>

text \<open>
  The second loop of \<^verbatim>\<open>download_for_date_station\<close>: \<open>Some (path, True)\<close> is a
  \<^verbatim>\<open>return\<close> from inside the loop, \<open>None\<close> is the loop running to its end. A result of
  \<^verbatim>\<open>download_file\<close> is tested for truth, so \<^verbatim>\<open>None\<close> counts as \<^verbatim>\<open>False\<close>.
\<close>

fun try_candidates ::
  "env \<Rightarrow> string \<Rightarrow> (string \<times> string) list \<Rightarrow> world \<Rightarrow> (string \<times> bool) option \<times> world" where
  "try_candidates env token [] w = (None, w)"
| "try_candidates env token ((url, local_path) # candidates) w =
     (if isfile w local_path \<and> getsize w local_path > 0 then (Some (local_path, True), w)
      else (case download_file env url local_path token MAX_RETRIES w of
              (success, w') \<Rightarrow>
                if success = Some True then (Some (local_path, True), w')
                else try_candidates env token candidates w'))"

text \<open>\<^verbatim>\<open>candidates[0][1]\<close> raises \<^verbatim>\<open>IndexError\<close> on an empty list.\<close>

definition first_local_path :: "(string \<times> string) list \<Rightarrow> exn + string" where
  "first_local_path candidates =
     (case candidates of [] \<Rightarrow> Inl IndexError | c # _ \<Rightarrow> Inr (snd c))"

definition download_for_date_station ::
  "env \<Rightarrow> string \<Rightarrow> date \<Rightarrow> string \<Rightarrow> string \<Rightarrow> bool \<Rightarrow> world
     \<Rightarrow> (exn + string \<times> bool) \<times> world" where
  "download_for_date_station env station current_date token rinex_root dry_run w =
     (let candidates = generate_rinex_url_and_path station current_date rinex_root
      in if dry_run then
           (let w' = w\<lparr>trace := trace w @ map (\<lambda>(url, local_path). Would_Try url) candidates\<rparr>
            in case first_local_path candidates of
                 Inl e \<Rightarrow> (Inl e, w')
               | Inr p \<Rightarrow> (Inr (p, True), w'))
         else
           (case try_candidates env token candidates w of
              (Some r, w') \<Rightarrow> (Inr r, w')
            | (None, w') \<Rightarrow>
                (case first_local_path candidates of
                   Inl e \<Rightarrow> (Inl e, w')
                 | Inr p \<Rightarrow> (Inr (p, False), w'))))"

subsection \<open>The batch orchestrator\<close>

text \<open>
  \<^verbatim>\<open>get_bearer_token\<close> reads the environment variable; an unset or empty variable raises.
\<close>

definition get_bearer_token :: "string option \<Rightarrow> exn + string" where
  "get_bearer_token environ_token =
     (case environ_token of
        None \<Rightarrow> Inl RuntimeError
      | Some token \<Rightarrow> if token = [] then Inl RuntimeError else Inr token)"

text \<open>
  The worker pool is taken one unit at a time, in the order of submission: every unit is
  resolved on the world its predecessor left, and the futures complete in that order. A
  future holds what \<^verbatim>\<open>future.result()\<close> gives: the pair the resolver returned, or the
  exception it raised. The resolver is a parameter, so that the collection of the results
  is stated for resolvers that raise as well.
\<close>

type_synonym resolver = "string \<Rightarrow> date \<Rightarrow> world \<Rightarrow> (exn + string \<times> bool) \<times> world"

type_synonym unit_outcome = "string \<times> date \<times> string option \<times> bool"

fun run_units ::
  "resolver \<Rightarrow> (string \<times> date) list \<Rightarrow> world
     \<Rightarrow> ((string \<times> date) \<times> (exn + string \<times> bool)) list \<times> world" where
  "run_units resolve [] w = ([], w)"
| "run_units resolve ((st, dt) # tasks) w =
     (case resolve st dt w of (r, w') \<Rightarrow>
        (case run_units resolve tasks w' of (futures, w'') \<Rightarrow>
           (((st, dt), r) # futures, w'')))"

text \<open>The body of the loop over the completed futures, with its \<^verbatim>\<open>try\<close>.\<close>

fun record_outcome :: "(string \<times> date) \<times> (exn + string \<times> bool) \<Rightarrow> unit_outcome" where
  "record_outcome ((st, dt), Inr (local_path, success)) = (st, dt, Some local_path, success)"
| "record_outcome ((st, dt), Inl e) = (st, dt, None, False)"

definition collect_results ::
  "((string \<times> date) \<times> (exn + string \<times> bool)) list \<Rightarrow> unit_outcome list" where
  "collect_results futures = map record_outcome futures"

definition succeeded :: "unit_outcome \<Rightarrow> bool" where
  "succeeded r = snd (snd (snd r))"

definition count_success :: "unit_outcome list \<Rightarrow> int" where
  "count_success results = int (length (filter succeeded results))"

definition run_batch ::
  "resolver \<Rightarrow> string list \<Rightarrow> date \<Rightarrow> date \<Rightarrow> (string \<rightharpoonup> period) \<Rightarrow> world
     \<Rightarrow> unit_outcome list \<times> world" where
  "run_batch resolve stations start_date end_date station_periods w =
     (case build_tasks station_periods start_date end_date stations of (tasks, skipped) \<Rightarrow>
        (let total = int (length tasks);
             w1 = w\<lparr>trace := trace w @ map Skipping_Station skipped\<rparr>
         in case run_units resolve tasks w1 of (futures, w2) \<Rightarrow>
              (let results = collect_results futures;
                   n_success = count_success results;
                   n_fail = total - n_success
               in (results, log_event (Download_Complete n_success n_fail) w2))))"

definition download_rinex_batch ::
  "env \<Rightarrow> string option \<Rightarrow> string list \<Rightarrow> date \<Rightarrow> date \<Rightarrow> string \<Rightarrow> (string \<rightharpoonup> period)
     \<Rightarrow> bool \<Rightarrow> world \<Rightarrow> (exn + unit_outcome list) \<times> world" where
  "download_rinex_batch env environ_token stations start_date end_date out_root
       station_periods dry_run w =
     (case get_bearer_token environ_token of
        Inl e \<Rightarrow> (Inl e, w)
      | Inr token \<Rightarrow>
          (case run_batch (\<lambda>st dt. download_for_date_station env st dt token out_root dry_run)
                  stations start_date end_date station_periods w of
             (results, w') \<Rightarrow> (Inr results, w')))"

subsection \<open>Observations on the trace, and sample surroundings\<close>

text \<open>
  What the properties count: the URLs requested in a trace, in order, and their number,
  the durations of its sleeps in order, the number of "Would try" lines, and the number of filesystem writes
  (directory creations and file writes).
\<close>

fun is_fetch :: "event \<Rightarrow> bool" where
  "is_fetch (Http_Get url) = True"
| "is_fetch e = False"

fun is_fs_write :: "event \<Rightarrow> bool" where
  "is_fs_write (Makedirs p) = True"
| "is_fs_write (Write_File p n) = True"
| "is_fs_write e = False"

fun is_would_try :: "event \<Rightarrow> bool" where
  "is_would_try (Would_Try url) = True"
| "is_would_try e = False"

fun sleep_of :: "event \<Rightarrow> nat list" where
  "sleep_of (Sleep n) = [n]"
| "sleep_of e = []"

fun url_of :: "event \<Rightarrow> string list" where
  "url_of (Http_Get url) = [url]"
| "url_of e = []"

definition fetched_urls :: "event list \<Rightarrow> string list" where
  "fetched_urls tr = concat (map url_of tr)"

definition fetch_attempts :: "event list \<Rightarrow> nat" where
  "fetch_attempts tr = length (filter is_fetch tr)"

definition delays :: "event list \<Rightarrow> nat list" where
  "delays tr = concat (map sleep_of tr)"

definition fs_writes :: "event list \<Rightarrow> nat" where
  "fs_writes tr = length (filter is_fs_write tr)"

definition would_try_reports :: "event list \<Rightarrow> nat" where
  "would_try_reports tr = length (filter is_would_try tr)"

text \<open>A reply that the executor treats as transient: a transport exception or a 5xx status.\<close>

fun is_transient :: "http_reply \<Rightarrow> bool" where
  "is_transient Transport_Error = True"
| "is_transient (Response status_code chunks) = (500 \<le> status_code \<and> status_code < 600)"

text \<open>
  A server that answers by the URL alone, on a disk without faults; and the world of a fresh
  run: no file, no directory, no request made yet, nothing logged.
\<close>

definition server :: "(string \<Rightarrow> http_reply) \<Rightarrow> env" where
  "server reply =
     \<lparr>http_get = (\<lambda>t url token. reply url),
      makedirs_fails = (\<lambda>t p. False),
      open_fails = (\<lambda>t p. False),
      chunk_fails = (\<lambda>t p. None)\<rparr>"

definition read_only_disk :: "(string \<Rightarrow> http_reply) \<Rightarrow> env" where
  "read_only_disk reply =
     \<lparr>http_get = (\<lambda>t url token. reply url),
      makedirs_fails = (\<lambda>t p. True),
      open_fails = (\<lambda>t p. True),
      chunk_fails = (\<lambda>t p. None)\<rparr>"

definition fresh_world :: world where
  "fresh_world = \<lparr>files = Map.empty, dirs = {}, clock = 0, trace = []\<rparr>"

section \<open>Properties\<close>

declare digits.simps [simp del]

declare download_attempts.simps [simp del]

subsection \<open>Dates\<close>

lemma daterange_upto:
  "daterange a b = [a..b]"
proof (cases "a \<le> b")
  case False
  then show ?thesis by (simp add: daterange_def)
next
  case True
  have "\<And>a. nat (b - a + 1) = k \<Longrightarrow> a \<le> b + 1 \<Longrightarrow> map (\<lambda>n. a + int n) [0..<k] = [a..b]" for k
  proof (induction k)
    case 0
    then show ?case by simp
  next
    case (Suc k)
    from Suc.prems have le: "a \<le> b" by simp
    have "map (\<lambda>n. a + int n) [0..<Suc k] = a # map (\<lambda>n. (a + 1) + int n) [0..<k]"
      by (simp add: upt_rec [of 0] map_Suc_upt [symmetric] del: upt_Suc)
    also have "map (\<lambda>n. (a + 1) + int n) [0..<k] = [a + 1..b]"
      using Suc.prems by (intro Suc.IH) auto
    also have "a # [a + 1..b] = [a..b]"
      using le by (simp add: upto_rec1)
    finally show ?case .
  qed
  from this [of a "nat (b - a + 1)"] True show ?thesis
    by (simp add: daterange_def)
qed


lemma ymd2ord_values:
  "ymd2ord 2019 12 1 = 737394" "ymd2ord 2020 1 1 = 737425" "ymd2ord 2020 1 2 = 737426"
  "ymd2ord 2020 1 3 = 737427" "ymd2ord 2025 1 1 = 739252"
  "ymd2ord 2021 6 1 = 737942" "ymd2ord 2021 6 2 = 737943"
  by (simp_all add: ymd2ord_def days_before_year_def days_before_month_def
      DAYS_BEFORE_MONTH_def is_leap_def)

subsection \<open>The availability window resolver\<close>

lemma station_tasks_fst:
  "t \<in> set (fst (station_tasks P s e st)) \<Longrightarrow> fst t = st"
  by (auto simp: station_tasks_def Let_def split: prod.splits if_splits)

lemma build_tasks_fst:
  "fst (build_tasks P s e (st # stations)) =
     fst (station_tasks P s e st) @ fst (build_tasks P s e stations)"
  by (simp split: prod.splits)

lemma build_tasks_other:
  "st \<notin> set stations \<Longrightarrow> filter (\<lambda>t. fst t = st) (fst (build_tasks P s e stations)) = []"
proof (induction stations)
  case Nil
  then show ?case by simp
next
  case (Cons x xs)
  then have "x \<noteq> st" by auto
  then have "filter (\<lambda>t. fst t = st) (fst (station_tasks P s e x)) = []"
    by (auto simp: filter_empty_conv dest: station_tasks_fst)
  with Cons show ?case
    by (simp add: build_tasks_fst del: build_tasks.simps)
qed

lemma build_tasks_filter:
  "distinct stations \<Longrightarrow> st \<in> set stations \<Longrightarrow>
   filter (\<lambda>t. fst t = st) (fst (build_tasks P s e stations)) = fst (station_tasks P s e st)"
proof (induction stations)
  case Nil
  then show ?case by simp
next
  case (Cons x xs)
  show ?case
  proof (cases "x = st")
    case True
    with Cons.prems have "st \<notin> set xs" by simp
    then have "filter (\<lambda>t. fst t = st) (fst (build_tasks P s e xs)) = []"
      by (rule build_tasks_other)
    moreover have "filter (\<lambda>t. fst t = st) (fst (station_tasks P s e st)) = fst (station_tasks P s e st)"
      by (auto simp: filter_id_conv dest: station_tasks_fst)
    ultimately show ?thesis using True
      by (simp add: build_tasks_fst del: build_tasks.simps)
  next
    case False
    then have "filter (\<lambda>t. fst t = st) (fst (station_tasks P s e x)) = []"
      by (auto simp: filter_empty_conv dest: station_tasks_fst)
    moreover from False Cons.prems have "distinct xs" "st \<in> set xs" by auto
    ultimately show ?thesis using Cons.IH
      by (simp add: build_tasks_fst del: build_tasks.simps)
  qed
qed

text \<open>
  Claim C1. For every window (optional start, optional stop) and requested range, the
  effective start computed by the expansion loop is the maximum of the requested start and
  the window's start, the effective end is the minimum of the requested end and the window's
  stop, a missing bound standing for the requested one. The station is skipped exactly when
  the effective start is after the effective end: then it contributes no work unit and is
  reported once as skipped, and otherwise it contributes at least one work unit and is not
  reported as skipped.
\<close>

theorem window_resolver_effective_range:
  "eff_start start_date st_start
     = max start_date (case st_start of None \<Rightarrow> start_date | Some s \<Rightarrow> s)
   \<and> eff_end end_date st_stop
     = min end_date (case st_stop of None \<Rightarrow> end_date | Some s \<Rightarrow> s)
   \<and> (station_tasks station_periods start_date end_date st = ([], [st])) =
       (eff_start start_date (fst (get_period station_periods st))
          > eff_end end_date (snd (get_period station_periods st)))
   \<and> (fst (station_tasks station_periods start_date end_date st) = []) =
       (eff_start start_date (fst (get_period station_periods st))
          > eff_end end_date (snd (get_period station_periods st)))
   \<and> (snd (station_tasks station_periods start_date end_date st) = []) =
       (eff_start start_date (fst (get_period station_periods st))
          \<le> eff_end end_date (snd (get_period station_periods st)))"
proof -
  obtain a b where ab: "get_period station_periods st = (a, b)"
    by (cases "get_period station_periods st")
  have 1: "eff_start start_date st_start
     = max start_date (case st_start of None \<Rightarrow> start_date | Some s \<Rightarrow> s)"
    by (simp add: eff_start_def max_def split: option.splits)
  have 2: "eff_end end_date st_stop
     = min end_date (case st_stop of None \<Rightarrow> end_date | Some s \<Rightarrow> s)"
    by (simp add: eff_end_def min_def split: option.splits)
  have ne: "eff_start start_date a \<le> eff_end end_date b \<Longrightarrow>
      daterange (eff_start start_date a) (eff_end end_date b) \<noteq> []"
    by (simp add: daterange_upto)
  have 3: "(station_tasks station_periods start_date end_date st = ([], [st])) =
       (eff_start start_date a > eff_end end_date b)"
    using ne by (auto simp: station_tasks_def ab Let_def)
  have 4: "(fst (station_tasks station_periods start_date end_date st) = []) =
       (eff_start start_date a > eff_end end_date b)"
    using ne by (auto simp: station_tasks_def ab Let_def)
  have 5: "(snd (station_tasks station_periods start_date end_date st) = []) =
       (eff_start start_date a \<le> eff_end end_date b)"
    by (auto simp: station_tasks_def ab Let_def)
  from 1 2 3 4 5 show ?thesis by (simp add: ab)
qed

text \<open>
  Claim C4. For every station of a run (identifiers are unique within a run) that is
  retained after window resolution, the work units the orchestrator generates for it are
  exactly one per calendar day of the effective range, both endpoints included. A station
  with window [2020-01-01, 2020-01-03] under the requested range [2019-12-01, 2025-01-01]
  yields exactly 3 work units, and a station without window data under the requested range
  [2021-06-01, 2021-06-02] yields exactly 2.
\<close>

theorem work_units_one_per_day:
  "(distinct stations \<and> st \<in> set stations
      \<and> eff_start start_date (fst (get_period station_periods st))
          \<le> eff_end end_date (snd (get_period station_periods st))
    \<longrightarrow> filter (\<lambda>t. fst t = st) (fst (build_tasks station_periods start_date end_date stations))
          = map (\<lambda>d. (st, d))
              [eff_start start_date (fst (get_period station_periods st)) ..
               eff_end end_date (snd (get_period station_periods st))]
        \<and> int (length (filter (\<lambda>t. fst t = st)
                  (fst (build_tasks station_periods start_date end_date stations))))
          = eff_end end_date (snd (get_period station_periods st))
              - eff_start start_date (fst (get_period station_periods st)) + 1)
   \<and> build_tasks [''X'' \<mapsto> (Some (ymd2ord 2020 1 1), Some (ymd2ord 2020 1 3))]
        (ymd2ord 2019 12 1) (ymd2ord 2025 1 1) [''X'']
       = ([(''X'', ymd2ord 2020 1 1), (''X'', ymd2ord 2020 1 2), (''X'', ymd2ord 2020 1 3)], [])
   \<and> build_tasks Map.empty (ymd2ord 2021 6 1) (ymd2ord 2021 6 2) [''Y'']
       = ([(''Y'', ymd2ord 2021 6 1), (''Y'', ymd2ord 2021 6 2)], [])"
proof -
  obtain a b where ab: "get_period station_periods st = (a, b)"
    by (cases "get_period station_periods st")
  have gen: "filter (\<lambda>t. fst t = st) (fst (build_tasks station_periods start_date end_date stations))
          = map (\<lambda>d. (st, d)) [eff_start start_date a .. eff_end end_date b]"
    if "distinct stations" "st \<in> set stations" "eff_start start_date a \<le> eff_end end_date b"
  proof -
    have "fst (station_tasks station_periods start_date end_date st)
        = map (\<lambda>d. (st, d)) [eff_start start_date a .. eff_end end_date b]"
      using that(3) by (simp add: station_tasks_def ab Let_def daterange_upto)
    with build_tasks_filter [OF that(1,2)] show ?thesis by simp
  qed
  have A: "build_tasks [''X'' \<mapsto> (Some (ymd2ord 2020 1 1), Some (ymd2ord 2020 1 3))]
        (ymd2ord 2019 12 1) (ymd2ord 2025 1 1) [''X'']
       = ([(''X'', ymd2ord 2020 1 1), (''X'', ymd2ord 2020 1 2), (''X'', ymd2ord 2020 1 3)], [])"
    unfolding ymd2ord_values
    by (simp add: station_tasks_def get_period_def eff_start_def eff_end_def
        daterange_upto upto_rec1)
  have B: "build_tasks Map.empty (ymd2ord 2021 6 1) (ymd2ord 2021 6 2) [''Y'']
       = ([(''Y'', ymd2ord 2021 6 1), (''Y'', ymd2ord 2021 6 2)], [])"
    unfolding ymd2ord_values
    by (simp add: station_tasks_def get_period_def eff_start_def eff_end_def
        daterange_upto upto_rec1)
  from gen A B show ?thesis by (simp add: ab)
qed

theorem work_units_one_per_day_witness:
  "distinct [''X''] \<and> ''X'' \<in> set [''X'']
   \<and> eff_start 737394 (fst (get_period [''X'' \<mapsto> (Some 737425, Some 737427)] ''X''))
       \<le> eff_end 739252 (snd (get_period [''X'' \<mapsto> (Some 737425, Some 737427)] ''X''))
   \<and> filter (\<lambda>t. fst t = ''X'')
        (fst (build_tasks [''X'' \<mapsto> (Some 737425, Some 737427)] 737394 739252 [''X'']))
       = [(''X'', 737425), (''X'', 737426), (''X'', 737427)]"
  using work_units_one_per_day [of "[''X'']" "''X''" 737394
      "[''X'' \<mapsto> (Some 737425, Some 737427)]" 739252]
  by (simp add: get_period_def eff_start_def eff_end_def upto_rec1)


subsection \<open>Day of the year and year of a date\<close>




subsection \<open>Formatting and paths\<close>














subsection \<open>The candidate generator\<close>

lemma unique_loop_two:
  "unique_loop [a, b] {} [] = (if a = b then [a] else [a, b])"
  by simp






subsection \<open>The fetch executor and its retry loop\<close>


lemma fetch_attempts_append [simp]: "fetch_attempts (xs @ ys) = fetch_attempts xs + fetch_attempts ys"
  by (simp add: fetch_attempts_def)
lemma delays_append [simp]: "delays (xs @ ys) = delays xs @ delays ys"
  by (simp add: delays_def)
lemma fs_writes_append [simp]: "fs_writes (xs @ ys) = fs_writes xs + fs_writes ys"
  by (simp add: fs_writes_def)

lemma try_fetch_trace:
  "\<exists>tr. trace (snd (try_fetch env url lp tok w)) = trace w @ Http_Get url # tr
        \<and> fetch_attempts tr = 0 \<and> delays tr = []"
  by (auto simp: try_fetch_def Let_def log_event_def ensure_directory_def write_body_def
      fetch_attempts_def delays_def
      split: http_reply.splits sum.splits option.splits prod.splits if_splits)

lemma try_fetch_counts:
  "fetch_attempts (trace (snd (try_fetch env url lp tok w))) = Suc (fetch_attempts (trace w))"
  "delays (trace (snd (try_fetch env url lp tok w))) = delays (trace w)"
  using try_fetch_trace [of env url lp tok w]
  by (auto simp: fetch_attempts_def delays_def)

lemma try_fetch_transient:
  "is_transient (http_get env (clock w) url tok) \<Longrightarrow>
   \<exists>e. try_fetch env url lp tok w
        = (Inl e, log_event (Http_Get url) (w\<lparr>clock := Suc (clock w)\<rparr>))"
  by (cases "http_get env (clock w) url tok") (auto simp: try_fetch_def Let_def)


text \<open>The retry loop when every attempt raises, in every world that satisfies \<open>I\<close>.\<close>

lemma attempts_all_raise:
  assumes step: "\<And>w. I w \<Longrightarrow> (\<exists>e. fst (try_fetch env url lp tok w) = Inl e)
                    \<and> I (log_event (Sleep RETRY_BACKOFF_SEC) (snd (try_fetch env url lp tok w)))"
  shows "I w \<Longrightarrow> a \<le> m \<Longrightarrow> m - a = n \<Longrightarrow>
         fst (download_attempts env url lp tok m a w) = Some False
       \<and> fetch_attempts (trace (snd (download_attempts env url lp tok m a w)))
           = fetch_attempts (trace w) + Suc n
       \<and> delays (trace (snd (download_attempts env url lp tok m a w)))
           = delays (trace w) @ replicate n RETRY_BACKOFF_SEC"
proof (induction n arbitrary: a w)
  case 0
  then have am: "a = m" by simp
  obtain e w' where t: "try_fetch env url lp tok w = (Inl e, w')"
    using step [OF 0(1)] by (cases "try_fetch env url lp tok w") auto
  have d: "download_attempts env url lp tok m a w = (Some False, w')"
    by (subst download_attempts.simps) (simp add: am t)
  from try_fetch_counts [of env url lp tok w] show ?case
    by (simp add: d t)
next
  case (Suc n)
  then have lt: "a < m" by simp
  obtain e w' where t: "try_fetch env url lp tok w = (Inl e, w')"
    using step [OF Suc(2)] by (cases "try_fetch env url lp tok w") auto
  let ?w = "log_event (Sleep RETRY_BACKOFF_SEC) w'"
  have I': "I ?w" using step [OF Suc(2)] by (simp add: t)
  have d: "download_attempts env url lp tok m a w
         = download_attempts env url lp tok m (Suc a) ?w"
    using lt by (subst download_attempts.simps) (simp add: t)
  have ih: "fst (download_attempts env url lp tok m (Suc a) ?w) = Some False
       \<and> fetch_attempts (trace (snd (download_attempts env url lp tok m (Suc a) ?w)))
           = fetch_attempts (trace ?w) + Suc n
       \<and> delays (trace (snd (download_attempts env url lp tok m (Suc a) ?w)))
           = delays (trace ?w) @ replicate n RETRY_BACKOFF_SEC"
    using Suc.prems lt by (intro Suc.IH [OF I']) auto
  have c: "fetch_attempts (trace ?w) = Suc (fetch_attempts (trace w))"
      "delays (trace ?w) = delays (trace w) @ [RETRY_BACKOFF_SEC]"
    using try_fetch_counts [of env url lp tok w]
    by (simp_all add: t log_event_def fetch_attempts_def delays_def)
  show ?case
    using ih by (simp add: d c replicate_app_Cons_same)
qed

lemma download_file_all_raise:
  assumes step: "\<And>w. I w \<Longrightarrow> (\<exists>e. fst (try_fetch env url lp tok w) = Inl e)
                    \<and> I (log_event (Sleep RETRY_BACKOFF_SEC) (snd (try_fetch env url lp tok w)))"
    and "I w" and "0 < m"
  shows "fst (download_file env url lp tok m w) = Some False
       \<and> fetch_attempts (trace (snd (download_file env url lp tok m w)))
           = fetch_attempts (trace w) + m
       \<and> delays (trace (snd (download_file env url lp tok m w)))
           = delays (trace w) @ replicate (m - 1) RETRY_BACKOFF_SEC"
proof -
  have "1 \<le> m" using assms(3) by simp
  from attempts_all_raise [of I env url lp tok w 1 m "m - 1", OF step assms(2) this]
  show ?thesis using assms(3) by (simp add: download_file_def)
qed

lemma download_file_transient:
  assumes "\<forall>t. is_transient (http_get env t url tok)" and "0 < m"
  shows "fst (download_file env url lp tok m w) = Some False
       \<and> fetch_attempts (trace (snd (download_file env url lp tok m w)))
           = fetch_attempts (trace w) + m
       \<and> delays (trace (snd (download_file env url lp tok m w)))
           = delays (trace w) @ replicate (m - 1) RETRY_BACKOFF_SEC"
proof (rule download_file_all_raise [where I = "\<lambda>w. True"])
  fix w :: world
  from assms(1) have "is_transient (http_get env (clock w) url tok)" by simp
  from try_fetch_transient [OF this, of lp]
  show "(\<exists>e. fst (try_fetch env url lp tok w) = Inl e) \<and> True" by auto
qed (simp_all add: assms)








lemma try_fetch_disk_fault:
  assumes "http_get env (clock w) url tok = Response 200 chunks"
    and "(\<not> path_exists w (dirname lp) \<and> makedirs_fails env (Suc (clock w)) (dirname lp))
       \<or> open_fails env (Suc (clock w)) lp
       \<or> (\<exists>k<length chunks. chunk_fails env (Suc (clock w)) lp = Some k)"
  shows "\<exists>e. fst (try_fetch env url lp tok w) = Inl e"
  using assms
  by (auto simp: try_fetch_def Let_def log_event_def ensure_directory_def write_body_def
      path_exists_def split: sum.splits option.splits prod.splits if_splits)

lemma try_fetch_mkdir_fault:
  assumes "http_get env (clock w) url tok = Response 200 chunks"
    and "\<not> path_exists w (dirname lp)" and "makedirs_fails env (Suc (clock w)) (dirname lp)"
  shows "\<not> path_exists (log_event e (snd (try_fetch env url lp tok w))) (dirname lp)"
  using assms
  by (auto simp: try_fetch_def Let_def log_event_def ensure_directory_def path_exists_def)

text \<open>
  Claim C10. The exception handler of \<^verbatim>\<open>download_file\<close> encloses the success path: when
  every reply is a 200 and the local filesystem fails each time (the directory is missing
  and cannot be created, or the file cannot be opened, or the chunk loop raises before the
  body is written), every attempt consumes a retry and is followed by the backoff delay
  unless it is the last, up to \<open>max_retries\<close> attempts, and the call returns failure. The
  result, the number of requests and the delays are those of the same call against a
  network that raises a transport exception every time.
\<close>

theorem disk_error_retried_like_transient:
  assumes ok: "\<forall>t. \<exists>chunks. http_get env t url token = Response 200 chunks"
    and fault: "(\<not> path_exists w (dirname local_path)
                  \<and> (\<forall>t. makedirs_fails env t (dirname local_path)))
              \<or> (\<forall>t. open_fails env t local_path)
              \<or> (\<forall>t chunks. http_get env t url token = Response 200 chunks
                    \<longrightarrow> (\<exists>k<length chunks. chunk_fails env (Suc t) local_path = Some k))"
    and m: "0 < max_retries"
  shows "fst (download_file env url local_path token max_retries w) = Some False
       \<and> fetch_attempts (trace (snd (download_file env url local_path token max_retries w)))
           = fetch_attempts (trace w) + max_retries
       \<and> delays (trace (snd (download_file env url local_path token max_retries w)))
           = delays (trace w) @ replicate (max_retries - 1) RETRY_BACKOFF_SEC
       \<and> fst (download_file env url local_path token max_retries w)
           = fst (download_file (env\<lparr>http_get := \<lambda>t url token. Transport_Error\<rparr>)
                    url local_path token max_retries w)
       \<and> fetch_attempts (trace (snd (download_file env url local_path token max_retries w)))
           = fetch_attempts (trace (snd (download_file
                 (env\<lparr>http_get := \<lambda>t url token. Transport_Error\<rparr>)
                 url local_path token max_retries w)))
       \<and> delays (trace (snd (download_file env url local_path token max_retries w)))
           = delays (trace (snd (download_file
                 (env\<lparr>http_get := \<lambda>t url token. Transport_Error\<rparr>)
                 url local_path token max_retries w)))"
proof -
  let ?env' = "env\<lparr>http_get := \<lambda>t url token. Transport_Error\<rparr>"
  have tr: "\<forall>t. is_transient (http_get ?env' t url token)" by simp
  note T = download_file_transient [OF tr m, of local_path w]
  have D: "fst (download_file env url local_path token max_retries w) = Some False
       \<and> fetch_attempts (trace (snd (download_file env url local_path token max_retries w)))
           = fetch_attempts (trace w) + max_retries
       \<and> delays (trace (snd (download_file env url local_path token max_retries w)))
           = delays (trace w) @ replicate (max_retries - 1) RETRY_BACKOFF_SEC"
    using fault
  proof (elim disjE conjE)
    assume a: "\<not> path_exists w (dirname local_path)"
      "\<forall>t. makedirs_fails env t (dirname local_path)"
    show ?thesis
    proof (rule download_file_all_raise
        [where I = "\<lambda>w. \<not> path_exists w (dirname local_path)"])
      fix v :: world
      assume v: "\<not> path_exists v (dirname local_path)"
      from ok obtain chunks where c: "http_get env (clock v) url token = Response 200 chunks"
        by blast
      from a(2) have mk: "makedirs_fails env (Suc (clock v)) (dirname local_path)" by simp
      from try_fetch_disk_fault [OF c, of local_path] v mk
        try_fetch_mkdir_fault [OF c v mk]
      show "(\<exists>e. fst (try_fetch env url local_path token v) = Inl e)
          \<and> \<not> path_exists (log_event (Sleep RETRY_BACKOFF_SEC)
                 (snd (try_fetch env url local_path token v))) (dirname local_path)"
        by blast
    qed (simp_all add: a m)
  next
    assume a: "\<forall>t. open_fails env t local_path"
    show ?thesis
    proof (rule download_file_all_raise [where I = "\<lambda>w. True"])
      fix v :: world
      from ok obtain chunks where c: "http_get env (clock v) url token = Response 200 chunks"
        by blast
      from try_fetch_disk_fault [OF c, of local_path] a
      show "(\<exists>e. fst (try_fetch env url local_path token v) = Inl e) \<and> True" by simp
    qed (simp_all add: m)
  next
    assume a: "\<forall>t chunks. http_get env t url token = Response 200 chunks
                    \<longrightarrow> (\<exists>k<length chunks. chunk_fails env (Suc t) local_path = Some k)"
    show ?thesis
    proof (rule download_file_all_raise [where I = "\<lambda>w. True"])
      fix v :: world
      from ok obtain chunks where c: "http_get env (clock v) url token = Response 200 chunks"
        by blast
      with a have "\<exists>k<length chunks. chunk_fails env (Suc (clock v)) local_path = Some k"
        by blast
      with try_fetch_disk_fault [OF c, of local_path]
      show "(\<exists>e. fst (try_fetch env url local_path token v) = Inl e) \<and> True" by simp
    qed (simp_all add: m)
  qed
  from D T show ?thesis by simp
qed

theorem disk_error_retried_like_transient_witness:
  "(\<forall>t. \<exists>chunks. http_get (read_only_disk (\<lambda>url. Response 200 [3, 0, 4])) t ''u'' ''tok''
        = Response 200 chunks)
   \<and> (\<forall>t. open_fails (read_only_disk (\<lambda>url. Response 200 [3, 0, 4])) t ''d/p'')
   \<and> 0 < MAX_RETRIES
   \<and> fst (download_file (read_only_disk (\<lambda>url. Response 200 [3, 0, 4])) ''u'' ''d/p'' ''tok''
        MAX_RETRIES fresh_world) = Some False
   \<and> fetch_attempts (trace (snd (download_file (read_only_disk (\<lambda>url. Response 200 [3, 0, 4]))
        ''u'' ''d/p'' ''tok'' MAX_RETRIES fresh_world))) = 3
   \<and> delays (trace (snd (download_file (read_only_disk (\<lambda>url. Response 200 [3, 0, 4]))
        ''u'' ''d/p'' ''tok'' MAX_RETRIES fresh_world))) = [5, 5]"
proof -
  let ?env = "read_only_disk (\<lambda>url. Response 200 [3, 0, 4])"
  have ok: "\<forall>t. \<exists>chunks. http_get ?env t ''u'' ''tok'' = Response 200 chunks"
    by (simp add: read_only_disk_def)
  have op: "\<forall>t. open_fails ?env t ''d/p''"
    by (simp add: read_only_disk_def)
  then have fault: "(\<not> path_exists fresh_world (dirname ''d/p'')
                  \<and> (\<forall>t. makedirs_fails ?env t (dirname ''d/p'')))
              \<or> (\<forall>t. open_fails ?env t ''d/p'')
              \<or> (\<forall>t chunks. http_get ?env t ''u'' ''tok'' = Response 200 chunks
                    \<longrightarrow> (\<exists>k<length chunks. chunk_fails ?env (Suc t) ''d/p'' = Some k))"
    by blast
  have m: "0 < MAX_RETRIES" by (simp add: MAX_RETRIES_def)
  have z: "fetch_attempts (trace fresh_world) = 0" "delays (trace fresh_world) = []"
    by (simp_all add: fresh_world_def fetch_attempts_def delays_def)
  have r: "MAX_RETRIES = 3" by (simp add: MAX_RETRIES_def)
  from disk_error_retried_like_transient [OF ok fault m]
  show ?thesis
    unfolding z r using ok op by (simp add: RETRY_BACKOFF_SEC_def numeral_2_eq_2)
qed


subsection \<open>The unit resolver\<close>

lemma candidates_nonempty: "generate_rinex_url_and_path station d root \<noteq> []"
  by (simp add: generate_rinex_url_and_path_def generate_candidate_filenames_def Let_def)

lemma try_candidates_success:
  "fst (try_candidates env token cs w) = Some (p, b) \<Longrightarrow> b \<and> p \<in> snd ` set cs"
proof (induction cs arbitrary: w)
  case Nil
  then show ?case by simp
next
  case (Cons c cs)
  obtain url lp where c: "c = (url, lp)" by (cases c)
  show ?case
  proof (cases "isfile w lp \<and> getsize w lp > 0")
    case True
    with Cons.prems show ?thesis by (simp add: c)
  next
    case False
    obtain r w' where d: "download_file env url lp token MAX_RETRIES w = (r, w')"
      by (cases "download_file env url lp token MAX_RETRIES w")
    show ?thesis
    proof (cases "r = Some True")
      case True
      with Cons.prems False d show ?thesis by (simp add: c)
    next
      case f: False
      with Cons.prems False d have "fst (try_candidates env token cs w') = Some (p, b)"
        by (simp add: c)
      from Cons.IH [OF this] show ?thesis by simp
    qed
  qed
qed

text \<open>
  Claim C7. In a normal (non-dry) run, a work unit whose candidates are all exhausted without
  success returns the local path of its first candidate together with \<open>success = False\<close>;
  and a unit that returns \<open>success = False\<close> has exhausted its candidates and returns that
  path. The list of the candidates is never empty, so the first candidate exists.
\<close>

theorem exhausted_unit_reports_first_path:
  "(fst (try_candidates env token (generate_rinex_url_and_path station d root) w) = None
      \<longrightarrow> fst (download_for_date_station env station d token root False w)
            = Inr (snd (hd (generate_rinex_url_and_path station d root)), False))
   \<and> (\<forall>p. fst (download_for_date_station env station d token root False w) = Inr (p, False)
      \<longrightarrow> fst (try_candidates env token (generate_rinex_url_and_path station d root) w) = None
          \<and> first_local_path (generate_rinex_url_and_path station d root) = Inr p
          \<and> p = snd (hd (generate_rinex_url_and_path station d root)))
   \<and> generate_rinex_url_and_path station d root \<noteq> []"
proof -
  let ?cs = "generate_rinex_url_and_path station d root"
  obtain c rest where cs: "?cs = c # rest"
    using candidates_nonempty [of station d root] by (cases ?cs) auto
  have f: "first_local_path ?cs = Inr (snd c)" by (simp add: first_local_path_def cs)
  obtain r w' where t: "try_candidates env token ?cs w = (r, w')"
    by (cases "try_candidates env token ?cs w")
  show ?thesis
  proof (cases r)
    case None
    then show ?thesis
      using t f by (simp add: download_for_date_station_def Let_def) (simp add: cs)
  next
    case (Some a)
    obtain p b where a: "a = (p, b)" by (cases a)
    from try_candidates_success [of env token ?cs w p b] t Some a have b by simp
    with Some a t show ?thesis
      by (simp add: download_for_date_station_def Let_def) (simp add: cs)
  qed
qed

theorem exhausted_unit_reports_first_path_witness:
  "fst (try_candidates (server (\<lambda>url. Response 404 [])) ''tok''
          (generate_rinex_url_and_path ''p123'' 737427 ''out'') fresh_world) = None
   \<and> fst (download_for_date_station (server (\<lambda>url. Response 404 [])) ''p123'' 737427 ''tok''
          ''out'' False fresh_world) = Inr (''out/2020/003/p12300300.20d.Z'', False)"
proof -
  have h: "fst (try_candidates (server (\<lambda>url. Response 404 [])) ''tok''
          (generate_rinex_url_and_path ''p123'' 737427 ''out'') fresh_world) = None"
    by code_simp
  have c: "snd (hd (generate_rinex_url_and_path ''p123'' 737427 ''out''))
      = ''out/2020/003/p12300300.20d.Z''"
    by code_simp
  from exhausted_unit_reports_first_path [of "server (\<lambda>url. Response 404 [])" "''tok''"
      "''p123''" 737427 "''out''" fresh_world, THEN conjunct1, THEN mp, OF h] h
  show ?thesis by (simp add: c)
qed

lemma candidates_p123:
  "generate_rinex_url_and_path ''p123'' 737427 ''out''
     = [(''https://gage-data.earthscope.org/archive/gnss/rinex/obs/2020/003/p12300300.20d.Z'',
         ''out/2020/003/p12300300.20d.Z''),
        (''https://gage-data.earthscope.org/archive/gnss/rinex/obs/2020/003/P12300300.20d.Z'',
         ''out/2020/003/P12300300.20d.Z'')]"
  "generate_rinex_url_and_path ''p123'' 737428 ''out''
     = [(''https://gage-data.earthscope.org/archive/gnss/rinex/obs/2020/004/p12300400.20d.Z'',
         ''out/2020/004/p12300400.20d.Z''),
        (''https://gage-data.earthscope.org/archive/gnss/rinex/obs/2020/004/P12300400.20d.Z'',
         ''out/2020/004/P12300400.20d.Z'')]"
  by code_simp+

lemma would_try_reports_append [simp]:
  "would_try_reports (xs @ ys) = would_try_reports xs + would_try_reports ys"
  by (simp add: would_try_reports_def)

lemma would_try_map:
  "would_try_reports (map (\<lambda>(url, local_path). Would_Try url) cs) = length cs"
  "fetch_attempts (map (\<lambda>(url, local_path). Would_Try url) cs) = 0"
  "fs_writes (map (\<lambda>(url, local_path). Would_Try url) cs) = 0"
proof -
  have 1: "filter is_would_try (map (\<lambda>(url, local_path). Would_Try url) cs)
      = map (\<lambda>(url, local_path). Would_Try url) cs"
    unfolding filter_id_conv by auto
  have 2: "filter is_fetch (map (\<lambda>(url, local_path). Would_Try url) cs) = []"
    unfolding filter_empty_conv by auto
  have 3: "filter is_fs_write (map (\<lambda>(url, local_path). Would_Try url) cs) = []"
    unfolding filter_empty_conv by auto
  show "would_try_reports (map (\<lambda>(url, local_path). Would_Try url) cs) = length cs"
    unfolding would_try_reports_def 1 by simp
  show "fetch_attempts (map (\<lambda>(url, local_path). Would_Try url) cs) = 0"
    unfolding fetch_attempts_def 2 by simp
  show "fs_writes (map (\<lambda>(url, local_path). Would_Try url) cs) = 0"
    unfolding fs_writes_def 3 by simp
qed

lemma dry_run_unit:
  "download_for_date_station env station d token root True w
     = (Inr (snd (hd (generate_rinex_url_and_path station d root)), True),
        w\<lparr>trace := trace w @ map (\<lambda>(url, local_path). Would_Try url)
                              (generate_rinex_url_and_path station d root)\<rparr>)"
proof -
  obtain c rest where cs: "generate_rinex_url_and_path station d root = c # rest"
    using candidates_nonempty [of station d root]
    by (cases "generate_rinex_url_and_path station d root") auto
  show ?thesis
    by (simp add: download_for_date_station_def Let_def first_local_path_def cs)
qed

text \<open>
  Claim C8. In dry-run mode the unit resolver emits exactly one "Would try" line per
  candidate, in order, and nothing else: no request, no creation of a directory, no write
  of a file, the filesystem and the request counter are as before, and it returns
  \<open>success = True\<close> with the first candidate's local path. A dry run of the batch over one
  station and two dates, with two candidates per date, emits exactly 4 such lines, makes no
  request and writes nothing, whatever the surroundings.
\<close>

theorem dry_run_reports_only:
  "fst (download_for_date_station env station d token root True w)
     = Inr (snd (hd (generate_rinex_url_and_path station d root)), True)
   \<and> trace (snd (download_for_date_station env station d token root True w))
     = trace w @ map (\<lambda>c. Would_Try (fst c)) (generate_rinex_url_and_path station d root)
   \<and> would_try_reports (trace (snd (download_for_date_station env station d token root True w)))
     = would_try_reports (trace w) + length (generate_rinex_url_and_path station d root)
   \<and> fetch_attempts (trace (snd (download_for_date_station env station d token root True w)))
     = fetch_attempts (trace w)
   \<and> fs_writes (trace (snd (download_for_date_station env station d token root True w)))
     = fs_writes (trace w)
   \<and> files (snd (download_for_date_station env station d token root True w)) = files w
   \<and> dirs (snd (download_for_date_station env station d token root True w)) = dirs w
   \<and> clock (snd (download_for_date_station env station d token root True w)) = clock w
   \<and> fst (download_rinex_batch env (Some ''tok'') [''p123''] 737427 737428 ''out'' Map.empty
            True fresh_world)
     = Inr [(''p123'', 737427, Some ''out/2020/003/p12300300.20d.Z'', True),
            (''p123'', 737428, Some ''out/2020/004/p12300400.20d.Z'', True)]
   \<and> would_try_reports (trace (snd (download_rinex_batch env (Some ''tok'') [''p123'']
            737427 737428 ''out'' Map.empty True fresh_world))) = 4
   \<and> fetch_attempts (trace (snd (download_rinex_batch env (Some ''tok'') [''p123'']
            737427 737428 ''out'' Map.empty True fresh_world))) = 0
   \<and> fs_writes (trace (snd (download_rinex_batch env (Some ''tok'') [''p123'']
            737427 737428 ''out'' Map.empty True fresh_world))) = 0
   \<and> files (snd (download_rinex_batch env (Some ''tok'') [''p123'']
            737427 737428 ''out'' Map.empty True fresh_world)) = Map.empty
   \<and> dirs (snd (download_rinex_batch env (Some ''tok'') [''p123'']
            737427 737428 ''out'' Map.empty True fresh_world)) = {}"
proof -
  have m: "(\<lambda>(url, local_path). Would_Try url) = (\<lambda>c. Would_Try (fst c))"
    by (simp add: fun_eq_iff)
  have batch: "download_rinex_batch env (Some ''tok'') [''p123''] 737427 737428 ''out'' Map.empty
            True fresh_world
     = (Inr [(''p123'', 737427, Some ''out/2020/003/p12300300.20d.Z'', True),
            (''p123'', 737428, Some ''out/2020/004/p12300400.20d.Z'', True)],
        \<lparr>files = Map.empty, dirs = {}, clock = 0,
         trace = [Would_Try ''https://gage-data.earthscope.org/archive/gnss/rinex/obs/2020/003/p12300300.20d.Z'',
                  Would_Try ''https://gage-data.earthscope.org/archive/gnss/rinex/obs/2020/003/P12300300.20d.Z'',
                  Would_Try ''https://gage-data.earthscope.org/archive/gnss/rinex/obs/2020/004/p12300400.20d.Z'',
                  Would_Try ''https://gage-data.earthscope.org/archive/gnss/rinex/obs/2020/004/P12300400.20d.Z'',
                  Download_Complete 2 0]\<rparr>)"
    by (simp add: download_rinex_batch_def get_bearer_token_def run_batch_def station_tasks_def
        get_period_def eff_start_def eff_end_def daterange_upto upto_rec1 dry_run_unit
        candidates_p123 fresh_world_def collect_results_def count_success_def succeeded_def
        log_event_def)
  show ?thesis
    unfolding batch
    by (simp add: dry_run_unit would_try_map m [symmetric])
      (simp add: would_try_reports_def fetch_attempts_def fs_writes_def)
qed


subsection \<open>The batch orchestrator\<close>










subsection \<open>Running a unit a second time\<close>

lemma fetched_urls_append [simp]: "fetched_urls (xs @ ys) = fetched_urls xs @ fetched_urls ys"
  by (simp add: fetched_urls_def)

lemma fetch_attempts_urls: "fetch_attempts tr = length (fetched_urls tr)"
proof (induction tr)
  case Nil
  show ?case by (simp add: fetch_attempts_def fetched_urls_def)
next
  case (Cons e tr)
  then show ?case by (cases e) (simp_all add: fetch_attempts_def fetched_urls_def)
qed

lemma try_fetch_urls:
  "fetched_urls (trace (snd (try_fetch env url lp tok w))) = fetched_urls (trace w) @ [url]"
  by (auto simp: try_fetch_def Let_def log_event_def ensure_directory_def write_body_def
      fetched_urls_def
      split: http_reply.splits sum.splits option.splits prod.splits if_splits)

lemma try_fetch_files:
  "q \<noteq> lp \<Longrightarrow> files (snd (try_fetch env url lp tok w)) q = files w q"
  by (auto simp: try_fetch_def Let_def log_event_def ensure_directory_def write_body_def
      split: http_reply.splits sum.splits option.splits prod.splits if_splits)

lemma download_attempts_frame:
  "(\<exists>k. fetched_urls (trace (snd (download_attempts env url lp tok m a w)))
          = fetched_urls (trace w) @ replicate k url)
   \<and> (q \<noteq> lp \<longrightarrow> files (snd (download_attempts env url lp tok m a w)) q = files w q)"
proof (induction env url lp tok m a w rule: download_attempts.induct)
  case (1 env url lp tok m a w)
  show ?case
  proof (cases "m < a")
    case True
    then show ?thesis
      by (subst (1 2) download_attempts.simps) (simp add: exI [of _ 0])
  next
    case False
    obtain r w' where t: "try_fetch env url lp tok w = (r, w')"
      by (cases "try_fetch env url lp tok w")
    have u: "fetched_urls (trace w') = fetched_urls (trace w) @ [url]"
      using try_fetch_urls [of env url lp tok w] by (simp add: t)
    have f: "q \<noteq> lp \<Longrightarrow> files w' q = files w q"
      using try_fetch_files [of q lp env url tok w] by (simp add: t)
    show ?thesis
    proof (cases r)
      case (Inr b)
      have d: "download_attempts env url lp tok m a w = (Some b, w')"
        using False by (subst download_attempts.simps) (simp add: t Inr)
      show ?thesis unfolding d using u f by (auto intro: exI [of _ 1])
    next
      case (Inl e)
      show ?thesis
      proof (cases "a < m")
        case am: False
        have d: "download_attempts env url lp tok m a w = (Some False, w')"
          using False am by (subst download_attempts.simps) (simp add: t Inl)
        show ?thesis unfolding d using u f by (auto intro: exI [of _ 1])
      next
        case True
        let ?w = "log_event (Sleep RETRY_BACKOFF_SEC) w'"
        have d: "download_attempts env url lp tok m a w
               = download_attempts env url lp tok m (Suc a) ?w"
          using False True by (subst download_attempts.simps) (simp add: t Inl)
        from "1.IH" [OF False t [symmetric] Inl True]
        obtain k where k: "fetched_urls (trace (snd (download_attempts env url lp tok m (Suc a) ?w)))
              = fetched_urls (trace ?w) @ replicate k url"
          and fr: "q \<noteq> lp \<longrightarrow> files (snd (download_attempts env url lp tok m (Suc a) ?w)) q
              = files ?w q"
          by blast
        have uw: "fetched_urls (trace ?w) = fetched_urls (trace w) @ [url]"
          using u by (simp add: log_event_def fetched_urls_def)
        have "fetched_urls (trace (snd (download_attempts env url lp tok m a w)))
              = fetched_urls (trace w) @ replicate (Suc k) url"
          unfolding d k uw by simp
        moreover have "q \<noteq> lp \<longrightarrow> files (snd (download_attempts env url lp tok m a w)) q
              = files w q"
          unfolding d using fr f by (simp add: log_event_def)
        ultimately show ?thesis by blast
      qed
    qed
  qed
qed

lemma try_candidates_existing:
  assumes "p \<in> snd ` set cs" and "0 < getsize w p"
  shows "\<exists>p' us. fst (try_candidates env tok cs w) = Some (p', True)
           \<and> fetched_urls (trace (snd (try_candidates env tok cs w)))
               = fetched_urls (trace w) @ us
           \<and> set us \<subseteq> fst ` set (takeWhile (\<lambda>c. snd c \<noteq> p) cs)"
  using assms
proof (induction cs arbitrary: w)
  case Nil
  then show ?case by simp
next
  case (Cons c cs)
  obtain url lp where c: "c = (url, lp)" by (cases c)
  from Cons.prems(2) have ex: "isfile w p"
    by (auto simp: getsize_def isfile_def split: option.splits)
  show ?case
  proof (cases "isfile w lp \<and> 0 < getsize w lp")
    case True
    then show ?thesis by (simp add: c)
  next
    case False
    with ex Cons.prems(2) have ne: "p \<noteq> lp" by auto
    with Cons.prems(1) have mem: "p \<in> snd ` set cs" by (auto simp: c)
    obtain r w' where d: "download_file env url lp tok MAX_RETRIES w = (r, w')"
      by (cases "download_file env url lp tok MAX_RETRIES w")
    from download_attempts_frame [of env url lp tok MAX_RETRIES 1 w p] d ne
    obtain k where k: "fetched_urls (trace w') = fetched_urls (trace w) @ replicate k url"
      and fr: "files w' p = files w p"
      by (auto simp: download_file_def)
    have tw: "takeWhile (\<lambda>c. snd c \<noteq> p) (c # cs) = c # takeWhile (\<lambda>c. snd c \<noteq> p) cs"
      using ne by (simp add: c)
    show ?thesis
    proof (cases "r = Some True")
      case True
      have "try_candidates env tok (c # cs) w = (Some (lp, True), w')"
        unfolding c try_candidates.simps if_not_P [OF False] d using True by simp
      then show ?thesis
        unfolding tw using k by (auto simp: c intro!: exI [of _ "replicate k url"])
    next
      case f: False
      have t: "try_candidates env tok (c # cs) w = try_candidates env tok cs w'"
        unfolding c try_candidates.simps if_not_P [OF False] d using f by simp
      have "0 < getsize w' p" using Cons.prems(2) fr by (simp add: getsize_def)
      from Cons.IH [OF mem this]
      obtain p' us where 1: "fst (try_candidates env tok cs w') = Some (p', True)"
        and 2: "fetched_urls (trace (snd (try_candidates env tok cs w')))
               = fetched_urls (trace w') @ us"
        and 3: "set us \<subseteq> fst ` set (takeWhile (\<lambda>c. snd c \<noteq> p) cs)"
        by blast
      have "fetched_urls (trace (snd (try_candidates env tok (c # cs) w)))
               = fetched_urls (trace w) @ (replicate k url @ us)"
        unfolding t 2 k by simp
      moreover have "set (replicate k url @ us)
          \<subseteq> fst ` set (takeWhile (\<lambda>c. snd c \<noteq> p) (c # cs))"
        unfolding tw using 3 by (auto simp: c)
      ultimately show ?thesis using 1 unfolding t by blast
    qed
  qed
qed

text \<open>
  Against claim C3 as stated, two batches run twice on the same output root. In the first the
  archive has the file under its uppercase name only: the first run succeeds at the second
  candidate, and the second run requests the first candidate again before it finds the file
  of the second. In the second the archive answers 200 with an empty body: the first run
  succeeds and leaves a file of size zero, which the second run does not take as present,
  so it requests the candidate again.
\<close>

theorem second_run_fetches_counterexample:
  "fst (download_rinex_batch
          (server (\<lambda>url. if url = ''https://gage-data.earthscope.org/archive/gnss/rinex/obs/2020/003/P12300300.20d.Z''
                           then Response 200 [100] else Response 404 []))
          (Some ''tok'') [''p123''] 737427 737427 ''out'' Map.empty False fresh_world)
     = Inr [(''p123'', 737427, Some ''out/2020/003/P12300300.20d.Z'', True)]
   \<and> fetched_urls (trace (snd (download_rinex_batch
          (server (\<lambda>url. if url = ''https://gage-data.earthscope.org/archive/gnss/rinex/obs/2020/003/P12300300.20d.Z''
                           then Response 200 [100] else Response 404 []))
          (Some ''tok'') [''p123''] 737427 737427 ''out'' Map.empty False
          ((snd (download_rinex_batch
             (server (\<lambda>url. if url = ''https://gage-data.earthscope.org/archive/gnss/rinex/obs/2020/003/P12300300.20d.Z''
                              then Response 200 [100] else Response 404 []))
             (Some ''tok'') [''p123''] 737427 737427 ''out'' Map.empty False fresh_world))
            \<lparr>trace := []\<rparr>))))
     = [''https://gage-data.earthscope.org/archive/gnss/rinex/obs/2020/003/p12300300.20d.Z'']
   \<and> fst (download_rinex_batch (server (\<lambda>url. Response 200 []))
          (Some ''tok'') [''p123''] 737427 737427 ''out'' Map.empty False fresh_world)
     = Inr [(''p123'', 737427, Some ''out/2020/003/p12300300.20d.Z'', True)]
   \<and> fetched_urls (trace (snd (download_rinex_batch (server (\<lambda>url. Response 200 []))
          (Some ''tok'') [''p123''] 737427 737427 ''out'' Map.empty False
          ((snd (download_rinex_batch (server (\<lambda>url. Response 200 []))
             (Some ''tok'') [''p123''] 737427 737427 ''out'' Map.empty False fresh_world))
            \<lparr>trace := []\<rparr>))))
     = [''https://gage-data.earthscope.org/archive/gnss/rinex/obs/2020/003/p12300300.20d.Z'']"
  by code_simp

text \<open>
  Claim C3, amended. For every unit that succeeded on a first run and whose resolved local
  file has a non-zero size after it, a second run on the world the first one left succeeds
  again, whatever the network does, and makes no request for the candidate that succeeded
  nor for any later one: the URLs it requests are those of candidates that precede it in
  order. When the first run succeeded at the first candidate, the second run makes no
  request at all.
\<close>

theorem second_run_skips_satisfied_candidate:
  assumes "fst (download_for_date_station env station d token root False w) = Inr (p, True)"
    and "0 < getsize (snd (download_for_date_station env station d token root False w)) p"
  shows "(\<exists>p'. fst (download_for_date_station env2 station d token root False
                     (snd (download_for_date_station env station d token root False w)))
               = Inr (p', True))
       \<and> (\<exists>us. fetched_urls (trace (snd (download_for_date_station env2 station d token root False
                     (snd (download_for_date_station env station d token root False w)))))
               = fetched_urls (trace (snd (download_for_date_station env station d token root
                     False w))) @ us
             \<and> set us \<subseteq> fst ` set (takeWhile (\<lambda>c. snd c \<noteq> p)
                                        (generate_rinex_url_and_path station d root)))
       \<and> (p = snd (hd (generate_rinex_url_and_path station d root)) \<longrightarrow>
            fetch_attempts (trace (snd (download_for_date_station env2 station d token root False
                     (snd (download_for_date_station env station d token root False w)))))
              = fetch_attempts (trace (snd (download_for_date_station env station d token root
                     False w))))"
proof -
  let ?cs = "generate_rinex_url_and_path station d root"
  define w1 where "w1 = snd (download_for_date_station env station d token root False w)"
  obtain c rest where cs: "?cs = c # rest"
    using candidates_nonempty [of station d root] by (cases ?cs) auto
  obtain r w' where t: "try_candidates env token ?cs w = (r, w')"
    by (cases "try_candidates env token ?cs w")
  have "r = Some (p, True)"
    using assms(1) t
    by (cases r) (auto simp: download_for_date_station_def Let_def first_local_path_def cs)
  with try_candidates_success [of env token ?cs w p True] t
  have mem: "p \<in> snd ` set ?cs" by simp
  have sz: "0 < getsize w1 p" using assms(2) by (simp add: w1_def)
  from try_candidates_existing [OF mem sz, of env2 token]
  obtain p' us where 1: "fst (try_candidates env2 token ?cs w1) = Some (p', True)"
    and 2: "fetched_urls (trace (snd (try_candidates env2 token ?cs w1)))
               = fetched_urls (trace w1) @ us"
    and 3: "set us \<subseteq> fst ` set (takeWhile (\<lambda>c. snd c \<noteq> p) ?cs)"
    by blast
  obtain w2 where t2: "try_candidates env2 token ?cs w1 = (Some (p', True), w2)"
    using 1 by (cases "try_candidates env2 token ?cs w1") auto
  have run2: "download_for_date_station env2 station d token root False w1
      = (Inr (p', True), w2)"
    by (simp add: download_for_date_station_def Let_def t2)
  have u: "fetched_urls (trace w2) = fetched_urls (trace w1) @ us"
    using 2 by (simp add: t2)
  have first: "us = []" if "p = snd (hd ?cs)"
    using 3 that by (simp add: cs)
  show ?thesis
    unfolding w1_def [symmetric] run2 using u 3 first by (auto simp: fetch_attempts_urls)
qed

theorem second_run_skips_satisfied_candidate_witness:
  "fst (download_for_date_station (server (\<lambda>url. Response 200 [100])) ''p123'' 737427 ''tok''
          ''out'' False fresh_world) = Inr (''out/2020/003/p12300300.20d.Z'', True)
   \<and> 0 < getsize (snd (download_for_date_station (server (\<lambda>url. Response 200 [100])) ''p123''
          737427 ''tok'' ''out'' False fresh_world)) ''out/2020/003/p12300300.20d.Z''
   \<and> ''out/2020/003/p12300300.20d.Z''
       = snd (hd (generate_rinex_url_and_path ''p123'' 737427 ''out''))
   \<and> fetch_attempts (trace (snd (download_for_date_station (server (\<lambda>url. Response 404 []))
          ''p123'' 737427 ''tok'' ''out'' False
          (snd (download_for_date_station (server (\<lambda>url. Response 200 [100])) ''p123''
             737427 ''tok'' ''out'' False fresh_world))))) = 1"
proof -
  have a: "fst (download_for_date_station (server (\<lambda>url. Response 200 [100])) ''p123'' 737427
      ''tok'' ''out'' False fresh_world) = Inr (''out/2020/003/p12300300.20d.Z'', True)"
    by code_simp
  have b: "0 < getsize (snd (download_for_date_station (server (\<lambda>url. Response 200 [100]))
      ''p123'' 737427 ''tok'' ''out'' False fresh_world)) ''out/2020/003/p12300300.20d.Z''"
    by code_simp
  have c: "''out/2020/003/p12300300.20d.Z''
       = snd (hd (generate_rinex_url_and_path ''p123'' 737427 ''out''))"
    by (simp add: candidates_p123)
  have n: "fetch_attempts (trace (snd (download_for_date_station
      (server (\<lambda>url. Response 200 [100])) ''p123'' 737427 ''tok'' ''out'' False fresh_world))) = 1"
    by code_simp
  from second_run_skips_satisfied_candidate [OF a b, of "server (\<lambda>url. Response 404 [])",
      THEN conjunct2, THEN conjunct2, THEN mp, OF c]
  show ?thesis using a b c by (simp add: n)
qed

end
